theory Spec2Isabelle
  imports Complex_Main "HOL-Library.Multiset"
begin

unbundle bit_operations_syntax

section \<open>Geographic projection\<close>

text \<open>
  JavaScript numbers are modelled as real numbers: rounding, NaN and the infinities of
  IEEE arithmetic are outside the model. A \<^verbatim>\<open>THREE.Vector3\<close> is a record of its
  three components.
\<close>

record vec3 =
  vx :: real
  vy :: real
  vz :: real

text \<open>\<^verbatim>\<open>Vector3.multiplyScalar\<close> and \<^verbatim>\<open>Vector3.length\<close> of three.js.\<close>

definition multiplyScalar :: "vec3 \<Rightarrow> real \<Rightarrow> vec3" where
  "multiplyScalar v k = \<lparr>vx = vx v * k, vy = vy v * k, vz = vz v * k\<rparr>"

definition vec_length :: "vec3 \<Rightarrow> real" where
  "vec_length v = sqrt (vx v * vx v + vy v * vy v + vz v * vz v)"

text \<open>
  \<^verbatim>\<open>function latLonToVec3(lat, lon, radius = 1.0, deg = true)\<close>: an argument that the
  caller leaves out is \<open>None\<close> and takes the default.
\<close>

definition latLonToVec3 :: "real \<Rightarrow> real \<Rightarrow> real option \<Rightarrow> bool option \<Rightarrow> vec3" where
  "latLonToVec3 lat lon radius_arg deg_arg =
     (let radius = (case radius_arg of None \<Rightarrow> 1 | Some r \<Rightarrow> r);
          deg = (case deg_arg of None \<Rightarrow> True | Some d \<Rightarrow> d);
          lat = (if deg then lat * pi / 180 else lat);
          lon = (if deg then lon * pi / 180 else lon);
          l = cos lon;
          result = \<lparr>vx = sin lat * l, vy = sin lon, vz = cos lat * l\<rparr>
      in multiplyScalar result radius)"


section \<open>Shape meshes\<close>

text \<open>
  \<^verbatim>\<open>geometry.coordinates\<close> of a GeoJSON feature is a nest of JSON arrays with numbers
  at the leaves.
\<close>

datatype coords = Num real | Arr "coords list"

text \<open>
  A buffer geometry: the position attribute (a flat array of x, y, z triples in the
  source, kept here as the list of the triples) and the triangle index.
\<close>

record geometry =
  position :: "vec3 list"
  index :: "nat list"

text \<open>The mesh that \<^verbatim>\<open>createShapeMesh\<close> returns: its geometry and the colour of its own new material.\<close>

record shape_mesh =
  mesh_geometry :: geometry
  mesh_color :: int

text \<open>
  \<^verbatim>\<open>TypeError\<close> is the exception JavaScript throws on a property access on
  \<^verbatim>\<open>null\<close> or \<^verbatim>\<open>undefined\<close>. \<open>NotANumber\<close> marks the point where a value that is
  not a JSON number reaches arithmetic: JavaScript coerces it (to NaN, as a rule) and
  carries on, which real numbers cannot express, so the model stops there.
\<close>

datatype error = TypeError | NotANumber

text \<open>
  \<^verbatim>\<open>THREE.Shape\<close> and \<^verbatim>\<open>THREE.ShapeGeometry\<close> belong to three.js. A shape built by
  one \<^verbatim>\<open>moveTo\<close> followed by \<^verbatim>\<open>lineTo\<close>s is the list of its points in order; the
  triangulation is a parameter of the model.
\<close>

type_synonym shape_geometry = "(real \<times> real) list \<Rightarrow> geometry"

text \<open>\<^verbatim>\<open>!coordinatesArray\<close>: of the values of type \<open>coords\<close> only the number 0 is falsy.\<close>

fun falsy :: "coords \<Rightarrow> bool" where
  "falsy (Num r) = (r = 0)"
| "falsy (Arr xs) = False"

text \<open>
  The elements that \<^verbatim>\<open>for (let i = 0; i < count; i++)\<close> visits: \<^verbatim>\<open>count\<close> is
  \<^verbatim>\<open>undefined\<close> for a number, and the loop body never runs.
\<close>

fun elements :: "coords \<Rightarrow> coords list" where
  "elements (Arr xs) = xs"
| "elements (Num r) = []"

text \<open>\<^verbatim>\<open>c[k]\<close> where it is a number.\<close>

fun number_at :: "coords \<Rightarrow> nat \<Rightarrow> real option" where
  "number_at (Arr xs) k =
     (if k < length xs then (case xs ! k of Num r \<Rightarrow> Some r | Arr ys \<Rightarrow> None) else None)"
| "number_at (Num r) k = None"

text \<open>The first loop of \<^verbatim>\<open>createShapeMesh\<close> (lines 200 to 205).\<close>

fun shape_points :: "coords list \<Rightarrow> error + (real \<times> real) list" where
  "shape_points [] = Inr []"
| "shape_points (c # cs) =
     (case (number_at c 0, number_at c 1) of
        (Some a, Some b) \<Rightarrow>
          (case shape_points cs of
             Inl e \<Rightarrow> Inl e
           | Inr ps \<Rightarrow> Inr ((a * pi / 180, b * pi / 180) # ps))
      | _ \<Rightarrow> Inl NotANumber)"

text \<open>The body of the second loop (lines 211 to 217), on one vertex.\<close>

definition remap_vertex :: "real \<Rightarrow> vec3 \<Rightarrow> vec3" where
  "remap_vertex globeRadius v =
     (let lat = vx v; lon = vy v; l = cos lon
      in \<lparr>vx = sin lat * l * globeRadius, vy = sin lon * globeRadius, vz = cos lat * l * globeRadius\<rparr>)"

text \<open>
  \<^verbatim>\<open>function createShapeMesh(coordinatesArray, globeRadius = 10, color = 0xA5F9AC)\<close>;
  \<open>None\<close> is the \<^verbatim>\<open>null\<close> it returns for a falsy argument.
\<close>

definition createShapeMesh ::
    "shape_geometry \<Rightarrow> coords \<Rightarrow> real option \<Rightarrow> int option \<Rightarrow> error + shape_mesh option" where
  "createShapeMesh shapeGeometry coordinatesArray radius_arg color_arg =
     (let globeRadius = (case radius_arg of None \<Rightarrow> 10 | Some r \<Rightarrow> r);
          color = (case color_arg of None \<Rightarrow> 0xA5F9AC | Some c \<Rightarrow> c)
      in if falsy coordinatesArray then Inr None
         else (case shape_points (elements coordinatesArray) of
                 Inl e \<Rightarrow> Inl e
               | Inr shape \<Rightarrow>
                   (let geo = shapeGeometry shape
                    in Inr (Some \<lparr>mesh_geometry = geo\<lparr>position := map (remap_vertex globeRadius) (position geo)\<rparr>,
                                  mesh_color = color\<rparr>))))"

text \<open>
  Lines 46 to 48 of \<^verbatim>\<open>setup\<close>: an entry of length 1 is replaced by its only element,
  then the mesh is built.
\<close>

fun unwrap :: "coords \<Rightarrow> coords" where
  "unwrap (Arr [p]) = p"
| "unwrap points = points"

definition polygon_mesh :: "shape_geometry \<Rightarrow> coords \<Rightarrow> real \<Rightarrow> int \<Rightarrow> error + shape_mesh option" where
  "polygon_mesh shapeGeometry points radius shade =
     createShapeMesh shapeGeometry (unwrap points) (Some radius) (Some shade)"

section \<open>Loading the data\<close>

text \<open>
  What \<^verbatim>\<open>fetch\<close> and \<^verbatim>\<open>res.json()\<close> do is an input: the fetch is rejected with a
  message, or it resolves to a response with its \<^verbatim>\<open>ok\<close> flag and the outcome of
  parsing its body (a message where parsing fails).
\<close>

datatype 'a fetch_outcome = Rejected string | Response bool "string + 'a"

text \<open>\<^verbatim>\<open>loadJSON\<close> returns the document or \<^verbatim>\<open>null\<close>, and the lines written to the console.\<close>

definition loadJSON :: "string \<Rightarrow> 'a fetch_outcome \<Rightarrow> 'a option \<times> string list" where
  "loadJSON filepath outcome =
     (case outcome of
        Rejected message \<Rightarrow> (None, [message])
      | Response ok body \<Rightarrow>
          if \<not> ok then (None, [''Failed to fetch file '' @ filepath])
          else (case body of
                  Inl message \<Rightarrow> (None, [message])
                | Inr document \<Rightarrow> (Some document, [])))"

record feature =
  admin :: string
  coordinates :: "coords list"

record geojson =
  features :: "feature list"

section \<open>Program state\<close>

text \<open>
  An object of the scene graph: its three.js id, its name, the address of the
  \<^verbatim>\<open>THREE.Color\<close> object that \<^verbatim>\<open>material.color\<close> refers to (\<open>None\<close> for an object
  without material, such as the light), and its shape.
\<close>

datatype shape = Sphere real nat nat | Shape geometry | NoShape

record object3d =
  obj_id :: nat
  obj_name :: string
  material :: "nat option"
  obj_shape :: shape

text \<open>
  The globals of the program. \<^verbatim>\<open>THREE.Color\<close> objects are mutable and shared by
  reference, so they live in a store (\<open>colors\<close>, indexed by address) and the state holds
  addresses. A colour value is the hexadecimal number it was set from.
  \<open>pointer_locked\<close> is the property \<^verbatim>\<open>pointer.locked\<close>, which a \<^verbatim>\<open>THREE.Vector2\<close>
  does not have: \<open>None\<close> is \<^verbatim>\<open>undefined\<close>. A pointer coordinate is \<open>None\<close> where the
  division that computes it is by zero.
\<close>

record state =
  children :: "object3d list"
  colors :: "int list"
  next_id :: nat
  rotation_y :: real
  frames :: nat
  selected_id :: "nat option"
  selected_color :: nat
  selected_locked :: bool
  mouse_down :: bool
  pointer_x :: "real option"
  pointer_y :: "real option"
  pointer_locked :: "bool option"
  innerHTML :: string
  console :: "string list"

text \<open>
  Lines 7 to 16. three.js numbers the objects of the scene graph from 0 in the order of
  their construction: the scene takes 0 and the camera 1. \<^verbatim>\<open>new THREE.Color()\<close> is white.
\<close>

definition globals :: state where
  "globals =
     \<lparr>children = [], colors = [0xFFFFFF], next_id = 2, rotation_y = 0, frames = 0,
      selected_id = None, selected_color = 0, selected_locked = False,
      mouse_down = False, pointer_x = Some 0, pointer_y = Some 0, pointer_locked = None,
      innerHTML = [], console = []\<rparr>"

text \<open>Constructing a mesh with a new material of the given colour, naming it and adding it to the scene.\<close>

definition add_mesh :: "string \<Rightarrow> shape \<Rightarrow> int \<Rightarrow> state \<Rightarrow> state" where
  "add_mesh name sh color s =
     s\<lparr>children := children s @
          [\<lparr>obj_id = next_id s, obj_name = name, material = Some (length (colors s)), obj_shape = sh\<rparr>],
       colors := colors s @ [color],
       next_id := next_id s + 1\<rparr>"

definition add_light :: "state \<Rightarrow> state" where
  "add_light s =
     s\<lparr>children := children s @
          [\<lparr>obj_id = next_id s, obj_name = [], material = None, obj_shape = NoShape\<rparr>],
       next_id := next_id s + 1\<rparr>"

section \<open>Startup\<close>

definition globeRadius :: real where
  "globeRadius = 20"

text \<open>The loop over \<^verbatim>\<open>j\<close> (lines 45 to 51); assigning \<^verbatim>\<open>mesh.name\<close> on \<^verbatim>\<open>null\<close> throws.\<close>

fun add_polygons :: "shape_geometry \<Rightarrow> string \<Rightarrow> int \<Rightarrow> coords list \<Rightarrow> state \<Rightarrow> error + state" where
  "add_polygons shapeGeometry name shade [] s = Inr s"
| "add_polygons shapeGeometry name shade (points # rest) s =
     (case polygon_mesh shapeGeometry points (globeRadius + 1.5) shade of
        Inl e \<Rightarrow> Inl e
      | Inr None \<Rightarrow> Inl TypeError
      | Inr (Some mesh) \<Rightarrow>
          add_polygons shapeGeometry name shade rest
            (add_mesh name (Shape (mesh_geometry mesh)) (mesh_color mesh) s))"

text \<open>
  The loop over \<^verbatim>\<open>i\<close> (lines 39 to 52). \<open>random i\<close> is what the call of
  \<^verbatim>\<open>Math.random()\<close> for feature \<open>i\<close> returns, a number from 0 up to but not
  including 1, on which \<^verbatim>\<open>| 0\<close> is the floor.
\<close>

fun add_features :: "shape_geometry \<Rightarrow> (nat \<Rightarrow> real) \<Rightarrow> nat \<Rightarrow> feature list \<Rightarrow> state \<Rightarrow> error + state" where
  "add_features shapeGeometry random i [] s = Inr s"
| "add_features shapeGeometry random i (f # fs) s =
     (let color = 0xF0F0C9;
          value = \<lfloor>random i * 0xEF\<rfloor>;
          shade = (push_bit 16 value OR push_bit 8 value OR value) OR color
      in case add_polygons shapeGeometry (admin f) shade (coordinates f) s of
           Inl e \<Rightarrow> Inl e
         | Inr s' \<Rightarrow> add_features shapeGeometry random (i + 1) fs s')"

text \<open>
  \<^verbatim>\<open>setup\<close>. Reading \<^verbatim>\<open>data.features\<close> when \<^verbatim>\<open>loadJSON\<close> returned \<^verbatim>\<open>null\<close> throws a
  TypeError (line 36). The renderer, the camera and the registration of the
  handlers are outside the model.
\<close>

definition setup_fn :: "shape_geometry \<Rightarrow> (nat \<Rightarrow> real) \<Rightarrow> geojson fetch_outcome \<Rightarrow> error + state" where
  "setup_fn shapeGeometry random outcome =
     (let s = add_mesh ''globe'' (Sphere globeRadius 32 32) 0x124E78 globals;
          (data, logged) = loadJSON ''assets/earth.geo.json'' outcome;
          s = s\<lparr>console := console s @ logged\<rparr>
      in case data of
           None \<Rightarrow> Inl TypeError
         | Some document \<Rightarrow>
             (case add_features shapeGeometry random 0 (features document) s of
                Inl e \<Rightarrow> Inl e
              | Inr s' \<Rightarrow> Inr (add_light s')))"

section \<open>Render step and event handlers\<close>

text \<open>
  \<^verbatim>\<open>run\<close>, one frame: \<^verbatim>\<open>!pointer.locked\<close> is true for \<^verbatim>\<open>undefined\<close> and for
  \<^verbatim>\<open>false\<close>. The scene only ever turns about its y axis, so its rotation is the angle.
\<close>

fun truthy_flag :: "bool option \<Rightarrow> bool" where
  "truthy_flag None = False"
| "truthy_flag (Some b) = b"

definition run :: "state \<Rightarrow> state" where
  "run s =
     (let s = (if \<not> mouse_down s \<and> \<not> truthy_flag (pointer_locked s)
               then s\<lparr>rotation_y := rotation_y s + (- 0.0005)\<rparr> else s)
      in s\<lparr>frames := frames s + 1\<rparr>)"

text \<open>Lines 18 and 19: \<^verbatim>\<open>await setup()\<close>, then the first call of \<^verbatim>\<open>run\<close>.\<close>

definition main :: "shape_geometry \<Rightarrow> (nat \<Rightarrow> real) \<Rightarrow> geojson fetch_outcome \<Rightarrow> error + state" where
  "main shapeGeometry random outcome =
     (case setup_fn shapeGeometry random outcome of
        Inl e \<Rightarrow> Inl e
      | Inr s \<Rightarrow> Inr (run s))"

text \<open>
  What a pointer-move handler reads: \<^verbatim>\<open>event.clientX\<close>, \<^verbatim>\<open>event.clientY\<close>,
  \<^verbatim>\<open>window.innerWidth\<close> and \<^verbatim>\<open>window.innerHeight\<close>.
\<close>

record pointer_event =
  clientX :: real
  clientY :: real
  innerWidth :: real
  innerHeight :: real

text \<open>
  The writes of the handler that an observer sees: a material given back the saved
  colour, a material set to the highlight colour, and the label.
\<close>

datatype effect = Restore nat | Highlight nat | Label string

text \<open>\<^verbatim>\<open>if (selected.id)\<close>: \<^verbatim>\<open>null\<close> and 0 are falsy.\<close>

fun truthy_id :: "nat option \<Rightarrow> bool" where
  "truthy_id None = False"
| "truthy_id (Some n) = (n \<noteq> 0)"

text \<open>\<^verbatim>\<open>scene.getObjectById\<close>: the first object with that id, or \<^verbatim>\<open>undefined\<close>.\<close>

definition getObjectById :: "object3d list \<Rightarrow> nat \<Rightarrow> object3d option" where
  "getObjectById objs i = find (\<lambda>ob. obj_id ob = i) objs"

text \<open>Assigning \<^verbatim>\<open>material.color\<close> of that object.\<close>

fun set_material_color :: "nat \<Rightarrow> nat \<Rightarrow> object3d list \<Rightarrow> object3d list" where
  "set_material_color i c [] = []"
| "set_material_color i c (ob # obs) =
     (if obj_id ob = i then ob\<lparr>material := Some c\<rparr> # obs
      else ob # set_material_color i c obs)"

text \<open>
  \<^verbatim>\<open>scene.getObjectById(selected.id).material.color = selected.color\<close> (lines 99 and
  110): the material now refers to the very colour object that \<^verbatim>\<open>selected.color\<close> refers to.
\<close>

definition restore_selected :: "state \<Rightarrow> error + (effect list \<times> state)" where
  "restore_selected s =
     (case selected_id s of
        None \<Rightarrow> Inl TypeError
      | Some i \<Rightarrow>
          (case getObjectById (children s) i of
             None \<Rightarrow> Inl TypeError
           | Some ob \<Rightarrow>
               (case material ob of
                  None \<Rightarrow> Inl TypeError
                | Some a \<Rightarrow>
                    Inr ([Restore i],
                         s\<lparr>children := set_material_color i (selected_color s) (children s)\<rparr>))))"

definition highlight_color :: int where
  "highlight_color = 0xD74E09"

definition name_label :: "string \<Rightarrow> string" where
  \<open>name_label name = ''<p class="name">'' @ name @ ''</p>''\<close>

text \<open>
  Lines 97 to 107, for the nearest hit \<open>h\<close> (a reference to an object of the scene,
  given by its id). \<^verbatim>\<open>clone()\<close> allocates a new colour object; \<^verbatim>\<open>set\<close> overwrites
  the one the material refers to.
\<close>

definition select_object :: "nat \<Rightarrow> state \<Rightarrow> error + (effect list \<times> state)" where
  "select_object h s =
     (if selected_id s \<noteq> Some h then
        (case (if truthy_id (selected_id s) then restore_selected s else Inr ([], s)) of
           Inl e \<Rightarrow> Inl e
         | Inr (restored, s1) \<Rightarrow>
             (case getObjectById (children s1) h of
                None \<Rightarrow> Inl TypeError
              | Some ob \<Rightarrow>
                  (case material ob of
                     None \<Rightarrow> Inl TypeError
                   | Some a \<Rightarrow>
                       Inr (restored @ [Highlight h, Label (name_label (obj_name ob))],
                            s1\<lparr>selected_id := Some h,
                               selected_color := length (colors s1),
                               colors := (colors s1 @ [colors s1 ! a])[a := highlight_color],
                               innerHTML := name_label (obj_name ob)\<rparr>))))
      else Inr ([], s))"

text \<open>Lines 109 to 114.\<close>

definition deselect :: "state \<Rightarrow> error + (effect list \<times> state)" where
  "deselect s =
     (if truthy_id (selected_id s) then
        (case restore_selected s of
           Inl e \<Rightarrow> Inl e
         | Inr (restored, s1) \<Rightarrow>
             Inr (restored @ [Label []], s1\<lparr>selected_id := None, innerHTML := []\<rparr>))
      else Inr ([], s))"

text \<open>The pointer coordinate \<^verbatim>\<open>c / w\<close>, where the division is defined.\<close>

definition ratio :: "real \<Rightarrow> real \<Rightarrow> real option" where
  "ratio c w = (if w = 0 then None else Some (c / w))"

text \<open>
  \<^verbatim>\<open>onPointerMove\<close>. The result of \<^verbatim>\<open>raycaster.intersectObjects(scene.children)\<close> is an
  input: the objects hit, nearest first, each a reference into the scene and given here
  by its id. An id that names no object of the scene cannot come from the raycaster;
  the model answers it with the TypeError of a property access on \<^verbatim>\<open>undefined\<close>. The
  handler returns its writes and the new state; where it throws, the model has no
  successor state.
\<close>

definition onPointerMove :: "pointer_event \<Rightarrow> nat list \<Rightarrow> state \<Rightarrow> error + (effect list \<times> state)" where
  "onPointerMove event intersects s =
     (if mouse_down s then Inr ([], s)
      else
        (let s = s\<lparr>pointer_x := map_option (\<lambda>q. q * 2 - 1) (ratio (clientX event) (innerWidth event)),
                   pointer_y := map_option (\<lambda>q. - q * 2 + 1) (ratio (clientY event) (innerHeight event))\<rparr>
         in case intersects of
              [] \<Rightarrow> deselect s
            | h # farther \<Rightarrow>
                (case getObjectById (children s) h of
                   None \<Rightarrow> Inl TypeError
                 | Some ob \<Rightarrow>
                     if obj_name ob \<noteq> ''globe'' then select_object h s else deselect s)))"

definition onMouseDown :: "state \<Rightarrow> state" where
  "onMouseDown s = s\<lparr>mouse_down := True, selected_locked := False\<rparr>"

definition onMouseUp :: "state \<Rightarrow> state" where
  "onMouseUp s = s\<lparr>mouse_down := False\<rparr>"

text \<open>\<^verbatim>\<open>resize\<close> touches the renderer and the camera only.\<close>

definition resize :: "state \<Rightarrow> state" where
  "resize s = s"

text \<open>The events of the browser after startup, and the transition each one causes.\<close>

datatype event =
  PointerMove pointer_event "nat list"
| MouseDown
| MouseUp
| Resize
| AnimationFrame

fun step :: "event \<Rightarrow> state \<Rightarrow> error + state" where
  "step (PointerMove ev intersects) s =
     (case onPointerMove ev intersects s of Inl e \<Rightarrow> Inl e | Inr (effects, s') \<Rightarrow> Inr s')"
| "step MouseDown s = Inr (onMouseDown s)"
| "step MouseUp s = Inr (onMouseUp s)"
| "step Resize s = Inr (resize s)"
| "step AnimationFrame s = Inr (run s)"

text \<open>A scripted sequence of pointer moves: the writes of each move, and the last state.\<close>

fun pointer_moves :: "(pointer_event \<times> nat list) list \<Rightarrow> state \<Rightarrow> error + (effect list list \<times> state)" where
  "pointer_moves [] s = Inr ([], s)"
| "pointer_moves ((ev, intersects) # rest) s =
     (case onPointerMove ev intersects s of
        Inl e \<Rightarrow> Inl e
      | Inr (effects, s1) \<Rightarrow>
          (case pointer_moves rest s1 of
             Inl e \<Rightarrow> Inl e
           | Inr (later, s2) \<Rightarrow> Inr (effects # later, s2)))"


section \<open>Well-formed states\<close>

text \<open>The colour value of the material of an object, for an object that has one.\<close>

definition mesh_color_is :: "state \<Rightarrow> object3d \<Rightarrow> int \<Rightarrow> bool" where
  "mesh_color_is s ob c = (\<forall>a \<in> set_option (material ob). colors s ! a = c)"

text \<open>
  What three.js and the store guarantee of a scene: ids are unique and not 0 (the scene
  itself has id 0), every colour address is allocated, and no two objects share a
  colour object.
\<close>

definition scene_ok :: "state \<Rightarrow> bool" where
  "scene_ok s =
     (distinct (map obj_id (children s))
      \<and> (\<forall>ob \<in> set (children s). obj_id ob \<noteq> 0)
      \<and> (\<forall>ob \<in> set (children s). \<forall>a \<in> set_option (material ob). a < length (colors s))
      \<and> (\<forall>ob \<in> set (children s). \<forall>ob' \<in> set (children s).
            material ob \<noteq> None \<longrightarrow> material ob' = material ob \<longrightarrow> obj_id ob' = obj_id ob)
      \<and> selected_color s < length (colors s))"

text \<open>
  The invariant of the selection state, for \<open>base\<close> the colour of each object before
  any highlighting: an object that is not selected has its base colour; the selected
  object exists, has the highlight colour, and \<^verbatim>\<open>selected.color\<close> is a colour object of
  its own that holds the base colour of the selected object.
\<close>

definition selection_inv :: "(nat \<Rightarrow> int) \<Rightarrow> state \<Rightarrow> bool" where
  "selection_inv base s =
     (scene_ok s
      \<and> (case selected_id s of
            None \<Rightarrow> (\<forall>ob \<in> set (children s). mesh_color_is s ob (base (obj_id ob)))
          | Some i \<Rightarrow>
              (\<exists>sel \<in> set (children s).
                 obj_id sel = i \<and> material sel \<noteq> None \<and> mesh_color_is s sel highlight_color)
              \<and> (\<forall>ob \<in> set (children s). material ob \<noteq> Some (selected_color s))
              \<and> colors s ! selected_color s = base i
              \<and> (\<forall>ob \<in> set (children s). obj_id ob \<noteq> i \<longrightarrow> mesh_color_is s ob (base (obj_id ob)))))"

text \<open>The raycaster returns meshes of the scene.\<close>

definition hits_ok :: "state \<Rightarrow> nat list \<Rightarrow> bool" where
  "hits_ok s intersects =
     (\<forall>h \<in> set intersects.
        case getObjectById (children s) h of None \<Rightarrow> False | Some ob \<Rightarrow> material ob \<noteq> None)"

fun event_ok :: "state \<Rightarrow> event \<Rightarrow> bool" where
  "event_ok s (PointerMove ev intersects) = hits_ok s intersects"
| "event_ok s ev = True"

text \<open>The colour of each object of a state, by id.\<close>

definition color_by_id :: "state \<Rightarrow> nat \<Rightarrow> int" where
  "color_by_id s i =
     (case getObjectById (children s) i of
        None \<Rightarrow> 0
      | Some ob \<Rightarrow> (case material ob of None \<Rightarrow> 0 | Some a \<Rightarrow> colors s ! a))"

text \<open>The states the program reaches: the state after a startup that succeeds, and every state an event leads to.\<close>

inductive reachable :: "state \<Rightarrow> bool" where
  after_setup: "setup_fn shapeGeometry random outcome = Inr s \<Longrightarrow> reachable s"
| after_event: "reachable s \<Longrightarrow> step ev s = Inr s' \<Longrightarrow> reachable s'"

text \<open>During startup every id in the scene is below the id counter, which is past 0.\<close>

definition ids_allocated :: "state \<Rightarrow> bool" where
  "ids_allocated s = (scene_ok s \<and> (\<forall>ob \<in> set (children s). obj_id ob < next_id s) \<and> 0 < next_id s)"

text \<open>The events of a session, processed in order; an exception in a handler ends the model's run.\<close>

fun dispatch :: "event list \<Rightarrow> state \<Rightarrow> error + state" where
  "dispatch [] s = Inr s"
| "dispatch (ev # evs) s = (case step ev s of Inl e \<Rightarrow> Inl e | Inr s' \<Rightarrow> dispatch evs s')"

section \<open>A concrete run\<close>



definition demo_state :: state where
  "demo_state =
     \<lparr>children =
        [\<lparr>obj_id = 2, obj_name = ''globe'', material = Some 1, obj_shape = Sphere 20 32 32\<rparr>,
         \<lparr>obj_id = 3, obj_name = ''A'', material = Some 2,
          obj_shape = Shape \<lparr>position = map (remap_vertex 21.5)
                                [\<lparr>vx = 0, vy = 0, vz = 0\<rparr>, \<lparr>vx = 10 * pi / 180, vy = 0, vz = 0\<rparr>,
                                 \<lparr>vx = 0, vy = 10 * pi / 180, vz = 0\<rparr>],
                              index = [0, 1, 2]\<rparr>\<rparr>,
         \<lparr>obj_id = 4, obj_name = ''B'', material = Some 3,
          obj_shape = Shape \<lparr>position = map (remap_vertex 21.5)
                                [\<lparr>vx = 20 * pi / 180, vy = 0, vz = 0\<rparr>, \<lparr>vx = 30 * pi / 180, vy = 0, vz = 0\<rparr>,
                                 \<lparr>vx = 20 * pi / 180, vy = 10 * pi / 180, vz = 0\<rparr>],
                              index = [0, 1, 2]\<rparr>\<rparr>,
         \<lparr>obj_id = 5, obj_name = [], material = None, obj_shape = NoShape\<rparr>],
      colors = [0xFFFFFF, 0x124E78, 0xF0F0C9, 0xF0F0C9], next_id = 6, rotation_y = 0, frames = 0,
      selected_id = None, selected_color = 0, selected_locked = False,
      mouse_down = False, pointer_x = Some 0, pointer_y = Some 0, pointer_locked = None,
      innerHTML = [], console = []\<rparr>"

text \<open>A pointer event at the centre of an 800 by 600 window.\<close>

definition demo_event :: pointer_event where
  "demo_event = \<lparr>clientX = 400, clientY = 300, innerWidth = 800, innerHeight = 600\<rparr>"

text \<open>The demo state with the pointer over country A: A is highlighted and its colour saved.\<close>

definition demo_hover :: state where
  "demo_hover =
     demo_state\<lparr>colors := [0xFFFFFF, 0x124E78, 0xD74E09, 0xF0F0C9, 0xF0F0C9],
                selected_id := Some 3, selected_color := 4, innerHTML := name_label ''A''\<rparr>"

section \<open>Theorems\<close>

lemma sin_cos_unit: "sin a * sin a + cos a * cos a = (1::real)"
  using sin_cos_squared_add [of a] by (simp add: power2_eq_square)

lemma sphere_identity:
  "(sin a * cos b) * (sin a * cos b) + sin b * sin b + (cos a * cos b) * (cos a * cos b) = (1::real)"
proof -
  have "(sin a * cos b) * (sin a * cos b) + sin b * sin b + (cos a * cos b) * (cos a * cos b)
          = (sin a * sin a + cos a * cos a) * (cos b * cos b) + sin b * sin b"
    by (simp only: distrib_right distrib_left mult_ac add_ac)
  also have "\<dots> = 1 * (cos b * cos b) + sin b * sin b"
    by (simp only: sin_cos_unit)
  also have "\<dots> = 1"
    using sin_cos_unit [of b] by simp
  finally show ?thesis .
qed

lemma scaled_length:
  "vec_length (multiplyScalar \<lparr>vx = sin a * cos b, vy = sin b, vz = cos a * cos b\<rparr> r) = \<bar>r\<bar>"
proof -
  have "(sin a * cos b * r) * (sin a * cos b * r) + (sin b * r) * (sin b * r)
          + (cos a * cos b * r) * (cos a * cos b * r)
        = ((sin a * cos b) * (sin a * cos b) + sin b * sin b + (cos a * cos b) * (cos a * cos b)) * (r * r)"
    by (simp add: algebra_simps)
  also have "\<dots> = r * r"
    by (simp only: sphere_identity mult_1)
  finally show ?thesis
    by (simp add: vec_length_def multiplyScalar_def)
qed

lemma latLonToVec3_defaults:
  "latLonToVec3 lat lon None None = latLonToVec3 lat lon (Some 1) (Some True)"
  "latLonToVec3 lat lon (Some r) None = latLonToVec3 lat lon (Some r) (Some True)"
  by (simp_all add: latLonToVec3_def)

text \<open>
  C4. For every latitude, longitude and radius the projection returns the point with
  \<open>y = r sin lon\<close>, \<open>x = r sin lat cos lon\<close>, \<open>z = r cos lat cos lon\<close>, the two
  angles being multiplied by \<open>pi / 180\<close> first exactly when the degrees flag is set.
\<close>

theorem latLonToVec3_formula:
  "latLonToVec3 lat lon (Some r) (Some deg) =
     \<lparr>vx = r * sin (if deg then lat * (pi / 180) else lat) * cos (if deg then lon * (pi / 180) else lon),
      vy = r * sin (if deg then lon * (pi / 180) else lon),
      vz = r * cos (if deg then lat * (pi / 180) else lat) * cos (if deg then lon * (pi / 180) else lon)\<rparr>"
  by (simp add: latLonToVec3_def multiplyScalar_def Let_def)

theorem latLonToVec3_formula_witness:
  "latLonToVec3 90 0 (Some 2) (Some True) = \<lparr>vx = 2, vy = 0, vz = 0\<rparr>
   \<and> latLonToVec3 0 (pi / 2) (Some 2) (Some False) = \<lparr>vx = 0, vy = 2, vz = 0\<rparr>"
  using latLonToVec3_formula [of 90 0 2 True] latLonToVec3_formula [of 0 "pi / 2" 2 False]
  by simp

text \<open>
  C5 (as the code has it). The distance of the projected point from the origin is the
  absolute value of the radius, for every latitude, longitude, radius and setting of
  the degrees flag; it is the radius itself exactly when the radius is not negative.
\<close>

theorem latLonToVec3_length:
  "vec_length (latLonToVec3 lat lon (Some r) deg) = \<bar>r\<bar>"
  by (simp add: latLonToVec3_def Let_def scaled_length split: option.split)

text \<open>C5 (as stated) fails for a negative radius: the point for radius -1 is at distance 1.\<close>

theorem latLonToVec3_length_counterexample:
  "vec_length (latLonToVec3 0 0 (Some (- 1)) (Some True)) \<noteq> - 1"
  by (simp add: latLonToVec3_def Let_def multiplyScalar_def vec_length_def)








subsection \<open>The concrete run\<close>



lemma demo_move_to_A:
  "onPointerMove demo_event [3, 2] demo_state = Inr ([Highlight 3, Label (name_label ''A'')], demo_hover)"
  by (simp add: onPointerMove_def select_object_def getObjectById_def demo_state_def demo_hover_def
       demo_event_def ratio_def highlight_color_def Let_def)


lemma demo_state_inv: "selection_inv (color_by_id demo_state) demo_state"
  by (simp add: selection_inv_def scene_ok_def mesh_color_is_def color_by_id_def getObjectById_def
       demo_state_def)

subsection \<open>The selection invariant\<close>

lemma getObjectById_Some:
  "getObjectById objs i = Some ob \<Longrightarrow> ob \<in> set objs \<and> obj_id ob = i"
  unfolding getObjectById_def by (induction objs) (auto split: if_splits)

lemma getObjectById_member:
  "distinct (map obj_id objs) \<Longrightarrow> ob \<in> set objs \<Longrightarrow> getObjectById objs (obj_id ob) = Some ob"
  unfolding getObjectById_def by (induction objs) (auto simp: rev_image_eqI)

lemma set_material_color_map:
  "distinct (map obj_id objs) \<Longrightarrow>
     set_material_color i c objs = map (\<lambda>ob. if obj_id ob = i then ob\<lparr>material := Some c\<rparr> else ob) objs"
proof (induction objs)
  case Nil
  then show ?case by simp
next
  case (Cons ob obs)
  show ?case
  proof (cases "obj_id ob = i")
    case True
    with Cons.prems have "\<forall>x \<in> set obs. obj_id x \<noteq> i"
      by (auto simp: image_iff)
    then have "map (\<lambda>ob. if obj_id ob = i then ob\<lparr>material := Some c\<rparr> else ob) obs = obs"
      by (simp add: map_idI)
    with True show ?thesis by simp
  next
    case False
    with Cons show ?thesis by simp
  qed
qed


lemma selection_inv_cong:
  "children s' = children s \<Longrightarrow> colors s' = colors s \<Longrightarrow> selected_id s' = selected_id s \<Longrightarrow>
   selected_color s' = selected_color s \<Longrightarrow> selection_inv base s' = selection_inv base s"
  by (simp add: selection_inv_def scene_ok_def mesh_color_is_def cong: option.case_cong)

lemma scene_okD:
  assumes "scene_ok s"
  shows "distinct (map obj_id (children s))"
    and "\<And>ob. ob \<in> set (children s) \<Longrightarrow> obj_id ob \<noteq> 0"
    and "\<And>ob a. ob \<in> set (children s) \<Longrightarrow> material ob = Some a \<Longrightarrow> a < length (colors s)"
    and "\<And>p q a. p \<in> set (children s) \<Longrightarrow> q \<in> set (children s) \<Longrightarrow>
           material p = Some a \<Longrightarrow> material q = Some a \<Longrightarrow> obj_id q = obj_id p"
    and "selected_color s < length (colors s)"
proof -
  note c = assms [unfolded scene_ok_def]
  show "distinct (map obj_id (children s))"
    by (rule c [THEN conjunct1])
  show "obj_id ob \<noteq> 0" if "ob \<in> set (children s)" for ob
    using bspec [OF c [THEN conjunct2, THEN conjunct1] that] .
  show "a < length (colors s)" if "ob \<in> set (children s)" "material ob = Some a" for ob a
  proof -
    have "a \<in> set_option (material ob)" using that(2) by simp
    with bspec [OF c [THEN conjunct2, THEN conjunct2, THEN conjunct1] that(1)] show ?thesis
      by (rule bspec)
  qed
  show "obj_id q = obj_id p"
    if "p \<in> set (children s)" "q \<in> set (children s)" "material p = Some a" "material q = Some a" for p q a
  proof -
    have "material p \<noteq> None" "material q = material p" using that(3,4) by simp_all
    with bspec [OF bspec [OF c [THEN conjunct2, THEN conjunct2, THEN conjunct2, THEN conjunct1] that(1)] that(2)]
    show ?thesis by (elim impE) assumption+
  qed
  show "selected_color s < length (colors s)"
    by (rule c [THEN conjunct2, THEN conjunct2, THEN conjunct2, THEN conjunct2])
qed

lemma scene_okI:
  assumes "distinct (map obj_id (children s))"
    and "\<And>ob. ob \<in> set (children s) \<Longrightarrow> obj_id ob \<noteq> 0"
    and "\<And>ob a. ob \<in> set (children s) \<Longrightarrow> material ob = Some a \<Longrightarrow> a < length (colors s)"
    and "\<And>p q a. p \<in> set (children s) \<Longrightarrow> q \<in> set (children s) \<Longrightarrow>
           material p = Some a \<Longrightarrow> material q = Some a \<Longrightarrow> obj_id q = obj_id p"
    and "selected_color s < length (colors s)"
  shows "scene_ok s"
  unfolding scene_ok_def
proof (intro conjI ballI impI)
  fix ob ob' assume "ob \<in> set (children s)" "ob' \<in> set (children s)"
    "material ob \<noteq> None" "material ob' = material ob"
  then show "obj_id ob' = obj_id ob"
    using assms(4) [of ob ob'] by auto
next
  fix ob a assume "ob \<in> set (children s)" "a \<in> set_option (material ob)"
  then show "a < length (colors s)"
    using assms(3) [of ob a] by simp
qed (use assms in simp_all)

lemma mesh_color_is_iff:
  "mesh_color_is s ob c \<longleftrightarrow> (\<forall>a. material ob = Some a \<longrightarrow> colors s ! a = c)"
  by (cases "material ob") (simp_all add: mesh_color_is_def)


lemma selection_inv_scene: "selection_inv base s \<Longrightarrow> scene_ok s"
  by (simp add: selection_inv_def)

lemma selection_inv_NoneD:
  "selection_inv base s \<Longrightarrow> selected_id s = None \<Longrightarrow> ob \<in> set (children s) \<Longrightarrow>
     mesh_color_is s ob (base (obj_id ob))"
  unfolding selection_inv_def by (elim conjE) simp

lemma selection_inv_SomeD:
  assumes "selection_inv base s" "selected_id s = Some i"
  shows "\<exists>sel \<in> set (children s). obj_id sel = i \<and> material sel \<noteq> None \<and> mesh_color_is s sel highlight_color"
    and "\<And>ob. ob \<in> set (children s) \<Longrightarrow> material ob \<noteq> Some (selected_color s)"
    and "colors s ! selected_color s = base i"
    and "\<And>ob. ob \<in> set (children s) \<Longrightarrow> obj_id ob \<noteq> i \<Longrightarrow> mesh_color_is s ob (base (obj_id ob))"
proof -
  from assms have c: "(\<exists>sel \<in> set (children s).
                 obj_id sel = i \<and> material sel \<noteq> None \<and> mesh_color_is s sel highlight_color)
              \<and> (\<forall>ob \<in> set (children s). material ob \<noteq> Some (selected_color s))
              \<and> colors s ! selected_color s = base i
              \<and> (\<forall>ob \<in> set (children s). obj_id ob \<noteq> i \<longrightarrow> mesh_color_is s ob (base (obj_id ob)))"
    unfolding selection_inv_def by (elim conjE) simp
  show "\<exists>sel \<in> set (children s). obj_id sel = i \<and> material sel \<noteq> None \<and> mesh_color_is s sel highlight_color"
    by (rule c [THEN conjunct1])
  show "material ob \<noteq> Some (selected_color s)" if "ob \<in> set (children s)" for ob
    using bspec [OF c [THEN conjunct2, THEN conjunct1] that] .
  show "colors s ! selected_color s = base i"
    by (rule c [THEN conjunct2, THEN conjunct2, THEN conjunct1])
  show "mesh_color_is s ob (base (obj_id ob))" if "ob \<in> set (children s)" "obj_id ob \<noteq> i" for ob
    using bspec [OF c [THEN conjunct2, THEN conjunct2, THEN conjunct2] that(1)] that(2) by (rule mp)
qed

lemma selection_inv_NoneI:
  assumes "scene_ok s" "selected_id s = None"
    and "\<And>ob. ob \<in> set (children s) \<Longrightarrow> mesh_color_is s ob (base (obj_id ob))"
  shows "selection_inv base s"
  unfolding selection_inv_def using assms(1,3) by (simp add: assms(2))

lemma selection_inv_SomeI:
  assumes "scene_ok s" "selected_id s = Some i"
    and "sel \<in> set (children s)" "obj_id sel = i" "material sel \<noteq> None" "mesh_color_is s sel highlight_color"
    and "\<And>ob. ob \<in> set (children s) \<Longrightarrow> material ob \<noteq> Some (selected_color s)"
    and "colors s ! selected_color s = base i"
    and "\<And>ob. ob \<in> set (children s) \<Longrightarrow> obj_id ob \<noteq> i \<Longrightarrow> mesh_color_is s ob (base (obj_id ob))"
  shows "selection_inv base s"
  unfolding selection_inv_def
proof (intro conjI)
  show "scene_ok s" by (rule assms(1))
  show "case selected_id s of
      None \<Rightarrow> \<forall>ob\<in>set (children s). mesh_color_is s ob (base (obj_id ob))
    | Some i \<Rightarrow>
        (\<exists>sel\<in>set (children s). obj_id sel = i \<and> material sel \<noteq> None \<and> mesh_color_is s sel highlight_color) \<and>
        (\<forall>ob\<in>set (children s). material ob \<noteq> Some (selected_color s)) \<and>
        colors s ! selected_color s = base i \<and>
        (\<forall>ob\<in>set (children s). obj_id ob \<noteq> i \<longrightarrow> mesh_color_is s ob (base (obj_id ob)))"
    unfolding assms(2) option.case
  proof (intro conjI ballI impI)
    show "\<exists>sel\<in>set (children s). obj_id sel = i \<and> material sel \<noteq> None \<and> mesh_color_is s sel highlight_color"
      using assms(3-6) by blast
    show "colors s ! selected_color s = base i" by (rule assms(8))
  qed (use assms(7,9) in blast)+
qed


lemma restore_keeps_inv_gen:
  assumes inv: "selection_inv base s" and sel: "selected_id s = Some i"
    and ch: "children s' = map (\<lambda>ob. if obj_id ob = i then ob\<lparr>material := Some (selected_color s)\<rparr> else ob) (children s)"
    and co: "colors s' = colors s" and sc: "selected_color s' = selected_color s"
    and si: "selected_id s' = None"
  shows "selection_inv base s'"
proof -
  let ?upd = "\<lambda>ob. if obj_id ob = i then ob\<lparr>material := Some (selected_color s)\<rparr> else ob"
  note okD = scene_okD [OF selection_inv_scene [OF inv]]
  note fresh = selection_inv_SomeD(2) [OF inv sel]
  note saved = selection_inv_SomeD(3) [OF inv sel]
  note others = selection_inv_SomeD(4) [OF inv sel]
  have ids: "map obj_id (children s') = map obj_id (children s)"
    unfolding ch by (rule nth_equalityI) simp_all
  have mem: "\<exists>x0 \<in> set (children s). x = ?upd x0" if "x \<in> set (children s')" for x
    using that unfolding ch by auto
  have ok': "scene_ok s'"
  proof (rule scene_okI)
    show "distinct (map obj_id (children s'))"
      using okD(1) by (simp only: ids)
    show "obj_id ob \<noteq> 0" if "ob \<in> set (children s')" for ob
    proof -
      from mem [OF that] obtain x0 where "x0 \<in> set (children s)" "ob = ?upd x0" by blast
      then show ?thesis using okD(2) [of x0] by (simp split: if_splits)
    qed
    show "a < length (colors s')" if "ob \<in> set (children s')" "material ob = Some a" for ob a
    proof -
      from mem [OF that(1)] obtain x0 where "x0 \<in> set (children s)" "ob = ?upd x0" by blast
      then show ?thesis using okD(3) [of x0 a] okD(5) that(2) by (simp add: co split: if_splits)
    qed
    show "selected_color s' < length (colors s')"
      using okD(5) by (simp add: co sc)
    show "obj_id y = obj_id x"
      if x: "x \<in> set (children s')" and y: "y \<in> set (children s')"
        and mx: "material x = Some a" and my: "material y = Some a" for x y a
    proof -
      from mem [OF x] obtain x0 where x0: "x0 \<in> set (children s)" "x = ?upd x0" by blast
      from mem [OF y] obtain y0 where y0: "y0 \<in> set (children s)" "y = ?upd y0" by blast
      show "obj_id y = obj_id x"
      proof (cases "obj_id x0 = i")
        case True
        then have a: "a = selected_color s" using mx x0 by simp
        show ?thesis
        proof (cases "obj_id y0 = i")
          case True
          with \<open>obj_id x0 = i\<close> x0 y0 show ?thesis by simp
        next
          case False
          then have "material y0 = Some (selected_color s)" using my y0 a by simp
          with fresh [OF y0(1)] show ?thesis by simp
        qed
      next
        case False
        then have mx0: "material x0 = Some a" using mx x0 by simp
        show ?thesis
        proof (cases "obj_id y0 = i")
          case True
          then have "a = selected_color s" using my y0 by simp
          with mx0 fresh [OF x0(1)] show ?thesis by simp
        next
          case False
          then have "material y0 = Some a" using my y0 by simp
          from okD(4) [OF x0(1) y0(1) mx0 this] \<open>obj_id x0 \<noteq> i\<close> \<open>obj_id y0 \<noteq> i\<close> show ?thesis
            unfolding x0(2) y0(2) by simp
        qed
      qed
    qed
  qed
  have cols: "mesh_color_is s' ob (base (obj_id ob))" if "ob \<in> set (children s')" for ob
  proof -
    from mem [OF that] obtain x0 where x0: "x0 \<in> set (children s)" "ob = ?upd x0" by blast
    show ?thesis
    proof (cases "obj_id x0 = i")
      case True
      then show ?thesis using x0 saved by (simp add: mesh_color_is_iff co)
    next
      case False
      then show ?thesis using x0 others [OF x0(1) False] by (simp add: mesh_color_is_iff co)
    qed
  qed
  show ?thesis
    by (rule selection_inv_NoneI [OF ok' si cols])
qed

lemma restore_keeps_inv:
  assumes inv: "selection_inv base s" and sel: "selected_id s = Some i"
  shows "selection_inv base
           (s\<lparr>children := set_material_color i (selected_color s) (children s), selected_id := None\<rparr>)"
proof -
  have "distinct (map obj_id (children s))"
    by (rule scene_okD(1) [OF selection_inv_scene [OF inv]])
  then have "set_material_color i (selected_color s) (children s)
      = map (\<lambda>ob. if obj_id ob = i then ob\<lparr>material := Some (selected_color s)\<rparr> else ob) (children s)"
    by (rule set_material_color_map)
  then show ?thesis
    by (intro restore_keeps_inv_gen [OF inv sel]) simp_all
qed

lemma select_keeps_inv_gen:
  assumes inv: "selection_inv base s" and none: "selected_id s = None"
    and hit: "getObjectById (children s) h = Some ob" and mat: "material ob = Some a"
    and ch: "children s' = children s"
    and co: "colors s' = (colors s @ [colors s ! a])[a := highlight_color]"
    and sc: "selected_color s' = length (colors s)"
    and si: "selected_id s' = Some h"
  shows "selection_inv base s'"
proof -
  note okD = scene_okD [OF selection_inv_scene [OF inv]]
  from getObjectById_Some [OF hit] have ob: "ob \<in> set (children s)" and idh: "obj_id ob = h"
    by simp_all
  have a: "a < length (colors s)"
    by (rule okD(3) [OF ob mat])
  have len: "length (colors s') = Suc (length (colors s))"
    by (simp add: co)
  have keep: "colors s' ! b = colors s ! b" if "b < length (colors s)" "b \<noteq> a" for b
    using that by (simp add: co nth_append)
  have ok': "scene_ok s'"
  proof (rule scene_okI)
    show "distinct (map obj_id (children s'))"
      using okD(1) by (simp only: ch)
    show "obj_id x \<noteq> 0" if "x \<in> set (children s')" for x
      using that okD(2) [of x] by (simp add: ch)
    show "b < length (colors s')" if "x \<in> set (children s')" "material x = Some b" for x b
      using okD(3) [of x b] that by (simp add: ch len)
    show "obj_id q = obj_id p"
      if "p \<in> set (children s')" "q \<in> set (children s')" "material p = Some b" "material q = Some b" for p q b
      using okD(4) [of p q b] that by (simp add: ch)
    show "selected_color s' < length (colors s')"
      by (simp add: sc len)
  qed
  show ?thesis
  proof (rule selection_inv_SomeI [OF ok' si, of ob])
    show "ob \<in> set (children s')" using ob by (simp add: ch)
    show "obj_id ob = h" by (rule idh)
    show "material ob \<noteq> None" using mat by simp
    show "mesh_color_is s' ob highlight_color"
      using a by (simp add: mesh_color_is_iff mat co)
    show "material x \<noteq> Some (selected_color s')" if "x \<in> set (children s')" for x
    proof
      assume "material x = Some (selected_color s')"
      with okD(3) [of x "length (colors s)"] that show False
        by (simp add: ch sc)
    qed
    show "colors s' ! selected_color s' = base h"
    proof -
      have "colors s' ! selected_color s' = colors s ! a"
        using a by (simp add: co sc nth_append)
      also have "\<dots> = base (obj_id ob)"
        using selection_inv_NoneD [OF inv none ob] by (simp add: mesh_color_is_iff mat)
      finally show ?thesis by (simp add: idh)
    qed
    show "mesh_color_is s' x (base (obj_id x))" if x: "x \<in> set (children s')" and ne: "obj_id x \<noteq> h" for x
    proof -
      from x have x0: "x \<in> set (children s)" by (simp add: ch)
      have "colors s' ! b = base (obj_id x)" if mb: "material x = Some b" for b
      proof -
        have "b \<noteq> a"
        proof
          assume "b = a"
          with okD(4) [OF ob x0 mat] mb have "obj_id x = obj_id ob" by simp
          with ne idh show False by simp
        qed
        moreover have "b < length (colors s)" by (rule okD(3) [OF x0 mb])
        ultimately have "colors s' ! b = colors s ! b" by (simp add: keep)
        also have "\<dots> = base (obj_id x)"
          using selection_inv_NoneD [OF inv none x0] mb by (simp add: mesh_color_is_iff)
        finally show ?thesis .
      qed
      then show ?thesis by (simp add: mesh_color_is_iff)
    qed
  qed
qed


lemma getObjectById_set_material_color:
  "getObjectById (set_material_color i c objs) h
     = map_option (\<lambda>ob. if obj_id ob = i then ob\<lparr>material := Some c\<rparr> else ob) (getObjectById objs h)"
proof -
  have same: "map_option (\<lambda>ob. if obj_id ob = i then ob\<lparr>material := Some c\<rparr> else ob) (getObjectById xs h)
                = getObjectById xs h" if "h \<noteq> i" for xs
  proof (cases "getObjectById xs h")
    case None
    then show ?thesis by simp
  next
    case (Some x)
    with getObjectById_Some [OF Some] that show ?thesis by simp
  qed
  show ?thesis
  proof (induction objs)
    case Nil
    then show ?case by (simp add: getObjectById_def)
  next
    case (Cons x xs)
    show ?case
    proof (cases "obj_id x = i")
      case True
      show ?thesis
      proof (cases "h = i")
        case True
        with \<open>obj_id x = i\<close> show ?thesis by (simp add: getObjectById_def)
      next
        case False
        with True same [OF False, of xs] show ?thesis by (simp add: getObjectById_def)
      qed
    next
      case False
      with Cons show ?thesis by (simp add: getObjectById_def)
    qed
  qed
qed

lemma selection_inv_selected:
  assumes inv: "selection_inv base s" and sel: "selected_id s = Some i"
  shows "\<exists>ob a. getObjectById (children s) i = Some ob \<and> material ob = Some a \<and> i \<noteq> 0"
proof -
  from selection_inv_SomeD(1) [OF inv sel] obtain ob
    where ob: "ob \<in> set (children s)" "obj_id ob = i" "material ob \<noteq> None"
    by blast
  note okD = scene_okD [OF selection_inv_scene [OF inv]]
  from getObjectById_member [OF okD(1) ob(1)] ob(2) have "getObjectById (children s) i = Some ob"
    by simp
  moreover from okD(2) [OF ob(1)] ob(2) have "i \<noteq> 0"
    by simp
  ultimately show ?thesis
    using ob(3) by auto
qed

lemma restore_selected_ok:
  assumes inv: "selection_inv base s" and sel: "selected_id s = Some i"
  shows "restore_selected s =
           Inr ([Restore i], s\<lparr>children := set_material_color i (selected_color s) (children s)\<rparr>)"
proof -
  from selection_inv_selected [OF inv sel] obtain ob a
    where "getObjectById (children s) i = Some ob" "material ob = Some a"
    by blast
  then show ?thesis
    by (simp add: restore_selected_def sel)
qed

lemma truthy_selected:
  assumes inv: "selection_inv base s"
  shows "truthy_id (selected_id s) \<longleftrightarrow> selected_id s \<noteq> None"
proof (cases "selected_id s")
  case None
  then show ?thesis by simp
next
  case (Some i)
  with selection_inv_selected [OF inv Some] show ?thesis by auto
qed

lemma deselect_result:
  assumes inv: "selection_inv base s"
  shows "deselect s =
     (case selected_id s of
        None \<Rightarrow> Inr ([], s)
      | Some i \<Rightarrow> Inr ([Restore i, Label []],
                       s\<lparr>children := set_material_color i (selected_color s) (children s),
                         selected_id := None, innerHTML := []\<rparr>))"
proof (cases "selected_id s")
  case None
  then show ?thesis by (simp add: deselect_def)
next
  case (Some i)
  with truthy_selected [OF inv] have "truthy_id (selected_id s)" by simp
  then show ?thesis
    by (simp add: deselect_def restore_selected_ok [OF inv Some] Some)
qed

lemma deselect_keeps_inv:
  assumes inv: "selection_inv base s" and res: "deselect s = Inr (fx, s')"
  shows "selection_inv base s'"
proof (cases "selected_id s")
  case None
  with res deselect_result [OF inv] have "s' = s" by simp
  with inv show ?thesis by simp
next
  case (Some i)
  with res deselect_result [OF inv]
  have s': "s' = s\<lparr>children := set_material_color i (selected_color s) (children s),
                         selected_id := None, innerHTML := []\<rparr>"
    by simp
  have "selection_inv base s'
          = selection_inv base (s\<lparr>children := set_material_color i (selected_color s) (children s), selected_id := None\<rparr>)"
    unfolding s' by (rule selection_inv_cong) simp_all
  with restore_keeps_inv [OF inv Some] show ?thesis by simp
qed


lemma deselect_total:
  assumes inv: "selection_inv base s"
  shows "\<exists>fx s'. deselect s = Inr (fx, s')"
  unfolding deselect_result [OF inv] by (cases "selected_id s") simp_all

lemma select_keeps_inv:
  assumes inv: "selection_inv base s" and res: "select_object h s = Inr (fx, s')"
  shows "selection_inv base s'"
proof (cases "selected_id s = Some h")
  case True
  with res have "s' = s" by (simp add: select_object_def)
  with inv show ?thesis by simp
next
  case False
  show ?thesis
  proof (cases "selected_id s")
    case None
    with res False obtain ob a where hit: "getObjectById (children s) h = Some ob"
      and mat: "material ob = Some a"
      and s': "s' = s\<lparr>selected_id := Some h, selected_color := length (colors s),
                       colors := (colors s @ [colors s ! a])[a := highlight_color],
                       innerHTML := name_label (obj_name ob)\<rparr>"
      by (auto simp: select_object_def split: option.splits)
    show ?thesis
      by (rule select_keeps_inv_gen [OF inv None hit mat]) (simp_all add: s')
  next
    case (Some i)
    let ?s1 = "s\<lparr>children := set_material_color i (selected_color s) (children s)\<rparr>"
    from truthy_selected [OF inv] Some have t: "truthy_id (selected_id s)" by simp
    from res False t obtain ob a where hit: "getObjectById (children ?s1) h = Some ob"
      and mat: "material ob = Some a"
      and s': "s' = ?s1\<lparr>selected_id := Some h, selected_color := length (colors ?s1),
                       colors := (colors ?s1 @ [colors ?s1 ! a])[a := highlight_color],
                       innerHTML := name_label (obj_name ob)\<rparr>"
      by (auto simp: select_object_def restore_selected_ok [OF inv Some] split: option.splits)
    have inv1: "selection_inv base (?s1\<lparr>selected_id := None\<rparr>)"
      using restore_keeps_inv [OF inv Some] by simp
    have hit1: "getObjectById (children (?s1\<lparr>selected_id := None\<rparr>)) h = Some ob"
      using hit by simp
    show ?thesis
      by (rule select_keeps_inv_gen [OF inv1 _ hit1 mat]) (simp_all add: s')
  qed
qed

lemma select_total:
  assumes inv: "selection_inv base s"
    and hit: "getObjectById (children s) h = Some ob" and mat: "material ob \<noteq> None"
  shows "\<exists>fx s'. select_object h s = Inr (fx, s')"
proof (cases "selected_id s = Some h")
  case True
  then show ?thesis by (simp add: select_object_def)
next
  case False
  from mat obtain a where a: "material ob = Some a" by auto
  show ?thesis
  proof (cases "selected_id s")
    case None
    with False hit a show ?thesis
      by (simp add: select_object_def)
  next
    case (Some i)
    from truthy_selected [OF inv] Some have t: "truthy_id (selected_id s)" by simp
    have "\<exists>ob' a'. getObjectById (set_material_color i (selected_color s) (children s)) h = Some ob'
             \<and> material ob' = Some a'"
      using hit a by (simp add: getObjectById_set_material_color)
    then obtain ob' a' where "getObjectById (set_material_color i (selected_color s) (children s)) h = Some ob'"
      "material ob' = Some a'"
      by blast
    with False t show ?thesis
      by (simp add: select_object_def restore_selected_ok [OF inv Some])
  qed
qed

lemma pointer_keeps_inv:
  "selection_inv base (s\<lparr>pointer_x := px, pointer_y := py\<rparr>) = selection_inv base s"
  by (rule selection_inv_cong) simp_all

lemma onPointerMove_keeps_inv:
  assumes inv: "selection_inv base s" and res: "onPointerMove e intersects s = Inr (fx, s')"
  shows "selection_inv base s'"
proof (cases "mouse_down s")
  case True
  with res have "s' = s" by (simp add: onPointerMove_def)
  with inv show ?thesis by simp
next
  case False
  let ?s0 = "s\<lparr>pointer_x := map_option (\<lambda>q. q * 2 - 1) (ratio (clientX e) (innerWidth e)),
               pointer_y := map_option (\<lambda>q. - q * 2 + 1) (ratio (clientY e) (innerHeight e))\<rparr>"
  have inv0: "selection_inv base ?s0"
    using inv by (simp only: pointer_keeps_inv)
  show ?thesis
  proof (cases intersects)
    case Nil
    with res False have "deselect ?s0 = Inr (fx, s')"
      by (simp add: onPointerMove_def Let_def)
    then show ?thesis by (rule deselect_keeps_inv [OF inv0])
  next
    case (Cons h farther)
    with res False obtain ob where ob: "getObjectById (children s) h = Some ob"
      by (cases "getObjectById (children s) h") (simp_all add: onPointerMove_def Let_def)
    show ?thesis
    proof (cases "obj_name ob \<noteq> ''globe''")
      case True
      with res False Cons ob have "select_object h ?s0 = Inr (fx, s')"
        by (simp add: onPointerMove_def Let_def)
      then show ?thesis by (rule select_keeps_inv [OF inv0])
    next
      case False
      with res \<open>\<not> mouse_down s\<close> Cons ob have "deselect ?s0 = Inr (fx, s')"
        by (simp add: onPointerMove_def Let_def)
      then show ?thesis by (rule deselect_keeps_inv [OF inv0])
    qed
  qed
qed

lemma onPointerMove_total:
  assumes inv: "selection_inv base s" and hits: "hits_ok s intersects"
  shows "\<exists>fx s'. onPointerMove e intersects s = Inr (fx, s')"
proof (cases "mouse_down s")
  case True
  then show ?thesis by (simp add: onPointerMove_def)
next
  case False
  let ?s0 = "s\<lparr>pointer_x := map_option (\<lambda>q. q * 2 - 1) (ratio (clientX e) (innerWidth e)),
               pointer_y := map_option (\<lambda>q. - q * 2 + 1) (ratio (clientY e) (innerHeight e))\<rparr>"
  have inv0: "selection_inv base ?s0"
    using inv by (simp only: pointer_keeps_inv)
  show ?thesis
  proof (cases intersects)
    case Nil
    with False deselect_total [OF inv0] show ?thesis
      by (simp add: onPointerMove_def Let_def)
  next
    case (Cons h farther)
    with hits obtain ob where ob: "getObjectById (children s) h = Some ob" and mat: "material ob \<noteq> None"
      by (auto simp: hits_ok_def split: option.splits)
    have ob0: "getObjectById (children ?s0) h = Some ob"
      using ob by simp
    show ?thesis
    proof (cases "obj_name ob \<noteq> ''globe''")
      case True
      with False Cons ob select_total [OF inv0 ob0 mat] show ?thesis
        by (simp add: onPointerMove_def Let_def)
    next
      case False
      with \<open>\<not> mouse_down s\<close> Cons ob deselect_total [OF inv0] show ?thesis
        by (simp add: onPointerMove_def Let_def)
    qed
  qed
qed

lemma step_keeps_inv:
  assumes inv: "selection_inv base s" and res: "step ev s = Inr s'"
  shows "selection_inv base s'"
proof (cases ev)
  case (PointerMove e intersects)
  with res obtain fx where "onPointerMove e intersects s = Inr (fx, s')"
    by (auto split: sum.splits)
  then show ?thesis by (rule onPointerMove_keeps_inv [OF inv])
next
  case MouseDown
  have "selection_inv base (onMouseDown s) = selection_inv base s"
    by (rule selection_inv_cong) (simp_all add: onMouseDown_def)
  with inv MouseDown res show ?thesis by simp
next
  case MouseUp
  have "selection_inv base (onMouseUp s) = selection_inv base s"
    by (rule selection_inv_cong) (simp_all add: onMouseUp_def)
  with inv MouseUp res show ?thesis by simp
next
  case Resize
  with inv res show ?thesis by (simp add: resize_def)
next
  case AnimationFrame
  have "selection_inv base (run s) = selection_inv base s"
    by (rule selection_inv_cong) (simp_all add: run_def Let_def)
  with inv AnimationFrame res show ?thesis by simp
qed

lemma step_total:
  assumes inv: "selection_inv base s" and ok: "event_ok s ev"
  shows "\<exists>s'. step ev s = Inr s'"
proof (cases ev)
  case (PointerMove e intersects)
  with ok have "hits_ok s intersects" by simp
  from onPointerMove_total [OF inv this, of e] PointerMove show ?thesis by auto
qed simp_all

text \<open>
  C6. The selection invariant is kept by every transition. From a state that satisfies
  \<open>selection_inv base\<close>, every event that the handlers process without an exception
  leads to a state that satisfies it again: the saved colour is still the base colour
  of the selected object, and every object that is not selected, the one just
  deselected or switched away from included, has its base colour back. With hits that
  are meshes of the scene no handler throws.
\<close>

theorem step_keeps_selection_inv:
  assumes inv: "selection_inv base s"
  shows "(\<forall>s'. step ev s = Inr s' \<longrightarrow> selection_inv base s')
         \<and> (event_ok s ev \<longrightarrow> (\<exists>s'. step ev s = Inr s'))"
proof (intro conjI allI impI)
  fix s' assume "step ev s = Inr s'"
  with inv show "selection_inv base s'" by (rule step_keeps_inv)
next
  assume "event_ok s ev"
  with inv show "\<exists>s'. step ev s = Inr s'" by (rule step_total)
qed

theorem step_keeps_selection_inv_witness:
  "selection_inv (color_by_id demo_state) demo_hover
   \<and> event_ok demo_hover (PointerMove demo_event [4, 2])
   \<and> (\<exists>s'. step (PointerMove demo_event [4, 2]) demo_hover = Inr s'
          \<and> selection_inv (color_by_id demo_state) s')"
proof -
  have "step (PointerMove demo_event [3, 2]) demo_state = Inr demo_hover"
    by (simp add: demo_move_to_A)
  with step_keeps_selection_inv [OF demo_state_inv, of "PointerMove demo_event [3, 2]"]
  have hover: "selection_inv (color_by_id demo_state) demo_hover"
    by blast
  have hits: "event_ok demo_hover (PointerMove demo_event [4, 2])"
    by (simp add: hits_ok_def getObjectById_def demo_hover_def demo_state_def)
  with step_keeps_selection_inv [OF hover, of "PointerMove demo_event [4, 2]"]
  have "\<exists>s'. step (PointerMove demo_event [4, 2]) demo_hover = Inr s'
          \<and> selection_inv (color_by_id demo_state) s'"
    by blast
  with hover hits show ?thesis
    by blast
qed

subsection \<open>The invariant holds after startup and throughout a session\<close>

lemma ids_allocatedD:
  assumes "ids_allocated s"
  shows "scene_ok s"
    and "\<And>ob. ob \<in> set (children s) \<Longrightarrow> obj_id ob < next_id s"
    and "0 < next_id s"
proof -
  note c = assms [unfolded ids_allocated_def]
  show "scene_ok s" by (rule c [THEN conjunct1])
  show "obj_id ob < next_id s" if "ob \<in> set (children s)" for ob
    using bspec [OF c [THEN conjunct2, THEN conjunct1] that] .
  show "0 < next_id s" by (rule c [THEN conjunct2, THEN conjunct2])
qed

lemma ids_allocated_console: "ids_allocated (s\<lparr>console := c\<rparr>) = ids_allocated s"
  by (simp add: ids_allocated_def scene_ok_def)

lemma ids_allocated_globals: "ids_allocated globals"
  by (simp add: ids_allocated_def scene_ok_def globals_def)

lemma ids_allocated_add_mesh:
  assumes "ids_allocated s"
  shows "ids_allocated (add_mesh name sh color s)"
proof -
  note ok = ids_allocatedD(1) [OF assms] and below = ids_allocatedD(2) [OF assms]
    and pos = ids_allocatedD(3) [OF assms]
  note okD = scene_okD [OF ok]
  let ?new = "\<lparr>obj_id = next_id s, obj_name = name, material = Some (length (colors s)), obj_shape = sh\<rparr>"
  let ?s = "add_mesh name sh color s"
  have ch: "children ?s = children s @ [?new]" and co: "colors ?s = colors s @ [color]"
    and ne: "next_id ?s = Suc (next_id s)" and sc: "selected_color ?s = selected_color s"
    by (simp_all add: add_mesh_def)
  have mem: "ob \<in> set (children s) \<or> ob = ?new" if "ob \<in> set (children ?s)" for ob
    using that by (auto simp: ch)
  have "scene_ok ?s"
  proof (rule scene_okI)
    have "next_id s \<notin> obj_id ` set (children s)"
      using below by fastforce
    then show "distinct (map obj_id (children ?s))"
      using okD(1) by (simp add: ch)
    show "obj_id ob \<noteq> 0" if "ob \<in> set (children ?s)" for ob
      using mem [OF that] okD(2) [of ob] pos by auto
    show "a < length (colors ?s)" if "ob \<in> set (children ?s)" "material ob = Some a" for ob a
      using mem [OF that(1)] okD(3) [of ob a] that(2) by (auto simp: co)
    show "selected_color ?s < length (colors ?s)"
      using okD(5) by (simp add: co sc)
    show "obj_id q = obj_id p"
      if p: "p \<in> set (children ?s)" and q: "q \<in> set (children ?s)"
        and mp: "material p = Some a" and mq: "material q = Some a"
      for p q a
    proof (cases "p = ?new")
      case True
      show ?thesis
      proof (cases "q = ?new")
        case True
        with \<open>p = ?new\<close> show ?thesis by simp
      next
        case False
        with mem [OF q] have "q \<in> set (children s)" by simp
        from okD(3) [OF this mq] True mp show ?thesis by simp
      qed
    next
      case False
      with mem [OF p] have p0: "p \<in> set (children s)" by simp
      show ?thesis
      proof (cases "q = ?new")
        case True
        with okD(3) [OF p0 mp] mq show ?thesis by simp
      next
        case False
        with mem [OF q] have "q \<in> set (children s)" by simp
        from okD(4) [OF p0 this mp mq] show ?thesis .
      qed
    qed
  qed
  moreover have "obj_id ob < next_id ?s" if "ob \<in> set (children ?s)" for ob
    using mem [OF that] below [of ob] by (auto simp: ne)
  ultimately show ?thesis
    unfolding ids_allocated_def using pos by (simp add: ne)
qed

lemma ids_allocated_add_light:
  assumes "ids_allocated s"
  shows "ids_allocated (add_light s)"
proof -
  note ok = ids_allocatedD(1) [OF assms] and below = ids_allocatedD(2) [OF assms]
    and pos = ids_allocatedD(3) [OF assms]
  note okD = scene_okD [OF ok]
  let ?new = "\<lparr>obj_id = next_id s, obj_name = [], material = None, obj_shape = NoShape\<rparr>"
  let ?s = "add_light s"
  have ch: "children ?s = children s @ [?new]" and co: "colors ?s = colors s"
    and ne: "next_id ?s = Suc (next_id s)" and sc: "selected_color ?s = selected_color s"
    by (simp_all add: add_light_def)
  have mem: "ob \<in> set (children s) \<or> ob = ?new" if "ob \<in> set (children ?s)" for ob
    using that by (auto simp: ch)
  have "scene_ok ?s"
  proof (rule scene_okI)
    have "next_id s \<notin> obj_id ` set (children s)"
      using below by fastforce
    then show "distinct (map obj_id (children ?s))"
      using okD(1) by (simp add: ch)
    show "obj_id ob \<noteq> 0" if "ob \<in> set (children ?s)" for ob
      using mem [OF that] okD(2) [of ob] pos by auto
    show "a < length (colors ?s)" if "ob \<in> set (children ?s)" "material ob = Some a" for ob a
      using mem [OF that(1)] okD(3) [of ob a] that(2) by (auto simp: co)
    show "selected_color ?s < length (colors ?s)"
      using okD(5) by (simp add: co sc)
    show "obj_id q = obj_id p"
      if "p \<in> set (children ?s)" "q \<in> set (children ?s)" "material p = Some a" "material q = Some a"
      for p q a
    proof -
      from mem [OF that(1)] that(3) have p0: "p \<in> set (children s)" by auto
      from mem [OF that(2)] that(4) have q0: "q \<in> set (children s)" by auto
      from okD(4) [OF p0 q0 that(3,4)] show ?thesis .
    qed
  qed
  moreover have "obj_id ob < next_id ?s" if "ob \<in> set (children ?s)" for ob
    using mem [OF that] below [of ob] by (auto simp: ne)
  ultimately show ?thesis
    unfolding ids_allocated_def using pos by (simp add: ne)
qed

lemma add_polygons_ids_allocated:
  "add_polygons sg name shade polys s = Inr s' \<Longrightarrow> ids_allocated s \<Longrightarrow>
     ids_allocated s' \<and> selected_id s' = selected_id s"
proof (induction polys arbitrary: s)
  case Nil
  then show ?case by simp
next
  case (Cons points rest)
  from Cons.prems(1) have "\<exists>g c. add_polygons sg name shade rest (add_mesh name (Shape g) c s) = Inr s'"
    by (auto split: sum.splits option.splits)
  then obtain g c where "add_polygons sg name shade rest (add_mesh name (Shape g) c s) = Inr s'"
    by blast
  from Cons.IH [OF this ids_allocated_add_mesh [OF Cons.prems(2)]] show ?case
    by (simp add: add_mesh_def)
qed

lemma add_features_ids_allocated:
  "add_features sg random i fs s = Inr s' \<Longrightarrow> ids_allocated s \<Longrightarrow>
     ids_allocated s' \<and> selected_id s' = selected_id s"
proof (induction fs arbitrary: s i)
  case Nil
  then show ?case by simp
next
  case (Cons f fs)
  from Cons.prems(1) have "\<exists>shade s1. add_polygons sg (admin f) shade (coordinates f) s = Inr s1
      \<and> add_features sg random (i + 1) fs s1 = Inr s'"
    by (auto simp: Let_def split: sum.splits)
  then obtain shade s1 where s1: "add_polygons sg (admin f) shade (coordinates f) s = Inr s1"
    and rest: "add_features sg random (i + 1) fs s1 = Inr s'"
    by blast
  from add_polygons_ids_allocated [OF s1 Cons.prems(2)]
  have "ids_allocated s1" "selected_id s1 = selected_id s" by simp_all
  with Cons.IH [OF rest] show ?case by simp
qed

lemma setup_ids_allocated:
  assumes "setup_fn sg random outcome = Inr s"
  shows "ids_allocated s \<and> selected_id s = None"
proof -
  let ?g = "add_mesh ''globe'' (Sphere globeRadius 32 32) 0x124E78 globals"
  let ?s0 = "?g\<lparr>console := console ?g @ snd (loadJSON ''assets/earth.geo.json'' outcome)\<rparr>"
  from assms have "\<exists>fs s1. add_features sg random 0 fs ?s0 = Inr s1 \<and> s = add_light s1"
    by (auto simp: setup_fn_def Let_def split: prod.splits option.splits sum.splits)
  then obtain fs s1 where s1: "add_features sg random 0 fs ?s0 = Inr s1" and s: "s = add_light s1"
    by blast
  have "ids_allocated ?g"
    by (rule ids_allocated_add_mesh [OF ids_allocated_globals])
  then have "ids_allocated ?s0"
    by (simp only: ids_allocated_console)
  from add_features_ids_allocated [OF s1 this]
  have "ids_allocated s1" "selected_id s1 = None"
    by (simp_all add: add_mesh_def globals_def)
  then show ?thesis
    unfolding s using ids_allocated_add_light [of s1] by (simp add: add_light_def)
qed

lemma idle_selection_inv:
  assumes ok: "scene_ok s" and idle: "selected_id s = None"
  shows "selection_inv (color_by_id s) s"
proof (rule selection_inv_NoneI [OF ok idle])
  fix ob assume ob: "ob \<in> set (children s)"
  from getObjectById_member [OF scene_okD(1) [OF ok] ob]
  show "mesh_color_is s ob (color_by_id s (obj_id ob))"
    by (simp add: mesh_color_is_iff color_by_id_def)
qed

lemma setup_selection_inv:
  assumes "setup_fn sg random outcome = Inr s"
  shows "selection_inv (color_by_id s) s"
proof -
  from setup_ids_allocated [OF assms] have "ids_allocated s" "selected_id s = None"
    by simp_all
  from ids_allocatedD(1) [OF this(1)] this(2) have "scene_ok s" "selected_id s = None"
    by simp_all
  then show ?thesis by (rule idle_selection_inv)
qed

lemma dispatch_selection_inv:
  "selection_inv base s \<Longrightarrow> dispatch evs s = Inr s' \<Longrightarrow> selection_inv base s'"
proof (induction evs arbitrary: s)
  case Nil
  then show ?case by simp
next
  case (Cons ev evs)
  from Cons.prems(2) obtain s1 where s1: "step ev s = Inr s1" and rest: "dispatch evs s1 = Inr s'"
    by (cases "step ev s") simp_all
  from Cons.IH [OF step_keeps_inv [OF Cons.prems(1) s1] rest] show ?case .
qed

lemma session_selection_inv:
  assumes "setup_fn sg random outcome = Inr s0" and "dispatch evs s0 = Inr s"
  shows "selection_inv (color_by_id s0) s"
  using setup_selection_inv [OF assms(1)] assms(2) by (rule dispatch_selection_inv)

lemma dispatch_append:
  "dispatch (evs @ [ev]) s = (case dispatch evs s of Inl e \<Rightarrow> Inl e | Inr s1 \<Rightarrow> step ev s1)"
  by (induction evs arbitrary: s) (auto split: sum.splits)

lemma reachable_session:
  "reachable s \<Longrightarrow>
     \<exists>sg random outcome s0 evs. setup_fn sg random outcome = Inr s0 \<and> dispatch evs s0 = Inr s"
proof (induction rule: reachable.induct)
  case (after_setup shapeGeometry random outcome s)
  then have "setup_fn shapeGeometry random outcome = Inr s \<and> dispatch [] s = Inr s"
    by simp
  then show ?case by blast
next
  case (after_event s ev s')
  then obtain sg random outcome s0 evs
    where "setup_fn sg random outcome = Inr s0" "dispatch evs s0 = Inr s"
    by blast
  with after_event(2) have "setup_fn sg random outcome = Inr s0 \<and> dispatch (evs @ [ev]) s0 = Inr s'"
    by (simp add: dispatch_append)
  then show ?case by blast
qed

lemma reachable_selection_inv:
  assumes "reachable s"
  shows "\<exists>sg random outcome s0. setup_fn sg random outcome = Inr s0 \<and> selection_inv (color_by_id s0) s"
proof -
  from reachable_session [OF assms] obtain sg random outcome s0 evs
    where "setup_fn sg random outcome = Inr s0" "dispatch evs s0 = Inr s"
    by blast
  from this(1) session_selection_inv [OF this] show ?thesis
    by blast
qed

subsection \<open>Dragging\<close>

text \<open>
  C7. While \<^verbatim>\<open>mouseState.down\<close> is true the pointer-move handler returns at once: the
  state it returns is the state it was given, and it made no write (no recolour, no
  restore, no label), whatever the pointer position and the hits.
\<close>

theorem onPointerMove_while_dragging:
  "mouse_down s \<Longrightarrow> onPointerMove event intersects s = Inr ([], s)"
  by (simp add: onPointerMove_def)

theorem onPointerMove_while_dragging_witness:
  "mouse_down (onMouseDown demo_hover)
   \<and> onPointerMove demo_event [4, 2] (onMouseDown demo_hover) = Inr ([], onMouseDown demo_hover)"
proof -
  have d: "mouse_down (onMouseDown demo_hover)"
    by (simp add: onMouseDown_def)
  from d onPointerMove_while_dragging [OF d, of demo_event "[4, 2]"] show ?thesis
    by (rule conjI)
qed

lemma pointer_moves_while_dragging:
  "mouse_down s \<Longrightarrow> pointer_moves script s = Inr (map (\<lambda>m. []) script, s)"
  by (induction script) (auto simp: onPointerMove_def)

text \<open>
  C2 (as the code has it). The pointer-down handler sets the dragging flag, clears
  \<^verbatim>\<open>selected.locked\<close> and leaves the selection as it was: \<^verbatim>\<open>selected.id\<close>, the saved
  colour, the scene, the colours and the label are unchanged, and no pointer move
  during the drag changes them either.
\<close>

theorem onMouseDown_keeps_selection:
  "mouse_down (onMouseDown s)
   \<and> \<not> selected_locked (onMouseDown s)
   \<and> selected_id (onMouseDown s) = selected_id s
   \<and> selected_color (onMouseDown s) = selected_color s
   \<and> children (onMouseDown s) = children s
   \<and> colors (onMouseDown s) = colors s
   \<and> innerHTML (onMouseDown s) = innerHTML s
   \<and> pointer_moves script (onMouseDown s) = Inr (map (\<lambda>m. []) script, onMouseDown s)"
proof -
  have "mouse_down (onMouseDown s)"
    by (simp add: onMouseDown_def)
  then have "pointer_moves script (onMouseDown s) = Inr (map (\<lambda>m. []) script, onMouseDown s)"
    by (rule pointer_moves_while_dragging)
  then show ?thesis
    by (simp add: onMouseDown_def)
qed

text \<open>
  C2 (as stated) fails: with the pointer over country A, \<^verbatim>\<open>selected.id\<close> is set, and it is
  still set after the pointer-down handler.
\<close>

theorem onMouseDown_clears_selection_counterexample:
  "selected_id demo_hover = Some 3 \<and> selected_id (onMouseDown demo_hover) = Some 3"
  by (simp add: onMouseDown_def demo_hover_def)

subsection \<open>The scripted pointer sequence\<close>




subsection \<open>Auto-rotation\<close>












subsection \<open>Failure of the initial load\<close>

text \<open>
  C1. When the fetch is rejected, the response is not ok, or the body does not parse,
  \<^verbatim>\<open>loadJSON\<close> logs the message and returns \<^verbatim>\<open>null\<close>; \<^verbatim>\<open>setup\<close> then throws a
  TypeError on \<^verbatim>\<open>data.features\<close>, and \<^verbatim>\<open>run\<close> is never called: no frame is rendered.
\<close>

theorem failed_load_throws:
  "loadJSON path (Rejected message) = (None, [message])
   \<and> loadJSON path (Response False body) = (None, [''Failed to fetch file '' @ path])
   \<and> loadJSON path (Response True (Inl message)) = (None, [message])
   \<and> setup_fn shapeGeometry random (Rejected message) = Inl TypeError
   \<and> setup_fn shapeGeometry random (Response False geo) = Inl TypeError
   \<and> setup_fn shapeGeometry random (Response True (Inl message)) = Inl TypeError
   \<and> main shapeGeometry random (Rejected message) = Inl TypeError
   \<and> main shapeGeometry random (Response False geo) = Inl TypeError
   \<and> main shapeGeometry random (Response True (Inl message)) = Inl TypeError"
  by (simp add: loadJSON_def setup_fn_def main_def)

text \<open>With a document without features the program does what C1 expects of a failed load: the globe alone is rendered.\<close>

lemma empty_document_renders:
  "main shapeGeometry random (Response True (Inr \<lparr>features = []\<rparr>))
     = Inr (globals\<lparr>children := [\<lparr>obj_id = 2, obj_name = ''globe'', material = Some 1, obj_shape = Sphere 20 32 32\<rparr>,
                                   \<lparr>obj_id = 3, obj_name = [], material = None, obj_shape = NoShape\<rparr>],
                     colors := [0xFFFFFF, 0x124E78], next_id := 4,
                     rotation_y := - 0.0005, frames := 1\<rparr>)"
  by (simp add: main_def setup_fn_def loadJSON_def add_mesh_def add_light_def globals_def run_def
       globeRadius_def Let_def)

end
